theory Spec2Isabelle
  imports Main "HOL-Library.AList"
begin

unbundle bit_operations_syntax

section \<open>Python values shared by both functions of \<open>neuronbridge_lib.py\<close>\<close>

text \<open>
  Exceptions are values. \<open>OSError\<close> stands for the socket errors
  (\<open>socket.gaierror\<close>, \<open>socket.herror\<close>) and for the transport and service errors of
  the S3 client; all of them are subclasses of \<open>Exception\<close>.
\<close>

datatype exn = OSError string | ValueError string | TypeError string | NameError string

text \<open>What a call of the module can end with: a returned value, an exception that
  leaves the function, or \<open>sys.exit\<close>.\<close>

datatype 'a outcome = Returned 'a | Raised exn | Exited int

text \<open>
  The names bound at module level in \<open>neuronbridge_lib.py\<close>: its imports
  (\<open>import os.path\<close> binds \<open>os\<close>), the constant and the functions. A global name
  that is neither here nor a builtin raises \<open>NameError\<close> when it is evaluated.
\<close>

definition module_globals :: "string list" where
  "module_globals =
     [''glob'', ''os'', ''re'', ''socket'', ''time'', ''TerminalMenu'',
      ''RELEASE_LIBRARY_BASE'', ''get_all_s3_objects'', ''get_library'',
      ''get_neuronbridge_version'', ''get_template'', ''generate_jacs_uid'']"

section \<open>\<open>generate_jacs_uid\<close>\<close>

subsection \<open>The environment: resolver and clock\<close>

text \<open>
  \<open>gethostname\<close> is the result of \<open>socket.gethostname()\<close>;
  \<open>gethostbyname k name\<close> is the result of the call \<open>socket.gethostbyname(name)\<close>
  when \<open>k\<close> calls of it have been made before; \<open>time_ms k\<close> is the value of
  \<open>int(time.time()*1000)\<close> at the \<open>k\<close>-th reading of the clock (the float arithmetic is
  not modelled: the clock hands out the integer number of milliseconds).
\<close>

record host =
  gethostname :: "exn + string"
  gethostbyname :: "nat \<Rightarrow> string \<Rightarrow> exn + string"
  time_ms :: "nat \<Rightarrow> int"

subsection \<open>\<open>str.split\<close> and \<open>int\<close>\<close>

text \<open>\<open>s.split(c)\<close> for a one-character separator: never empty, \<open>''''.split(c) = ['''']\<close>.\<close>

primrec split_on :: "char \<Rightarrow> string \<Rightarrow> string list" where
  "split_on c [] = [[]]"
| "split_on c (x # xs) =
     (if x = c then [] # split_on c xs
      else (case split_on c xs of
              [] \<Rightarrow> [[x]]
            | w # ws \<Rightarrow> (x # w) # ws))"

definition is_digit :: "char \<Rightarrow> bool" where
  "is_digit c = (48 \<le> (of_char c :: nat) \<and> (of_char c :: nat) \<le> 57)"

definition digits_value :: "string \<Rightarrow> int" where
  "digits_value ds = foldl (\<lambda>a c. 10 * a + (int (of_char c) - 48)) 0 ds"

text \<open>
  \<open>int(s)\<close> on a string: an optional sign and ASCII decimal digits. Python also accepts
  surrounding whitespace, underscores between digits and non-ASCII digits; these forms do
  not occur in the dotted quads that \<open>gethostbyname\<close> returns and are mapped to
  \<open>ValueError\<close> here.
\<close>

definition py_int :: "string \<Rightarrow> exn + int" where
  "py_int s =
     (case s of
        [] \<Rightarrow> Inl (ValueError s)
      | c # ds \<Rightarrow>
          if (c = CHR ''-'' \<or> c = CHR ''+'') \<and> ds \<noteq> [] \<and> list_all is_digit ds
          then Inr (if c = CHR ''-'' then - digits_value ds else digits_value ds)
          else if list_all is_digit s then Inr (digits_value s)
          else Inl (ValueError s))"

subsection \<open>Lines 109-114: the host component\<close>

text \<open>
  The \<open>try\<close> block: \<open>hostname = socket.gethostname(); ipa = socket.gethostbyname(hostname)\<close>.
  It gives the address or the exception that ended it, and the number of
  \<open>gethostbyname\<close> calls it made.
\<close>

definition resolve_local :: "host \<Rightarrow> (exn + string) \<times> nat" where
  "resolve_local h =
     (case gethostname h of
        Inl e \<Rightarrow> (Inl e, 0)
      | Inr hostname \<Rightarrow> (gethostbyname h 0 hostname, 1))"

text \<open>
  \<open>except Exception: ipa = socket.gethostbyname('localhost')\<close>. An exception of the
  fallback call is not caught.
\<close>

definition resolve_ipa :: "host \<Rightarrow> exn + string" where
  "resolve_ipa h =
     (case resolve_local h of
        (Inl e, k) \<Rightarrow> gethostbyname h k ''localhost''
      | (Inr ipa, k) \<Rightarrow> Inr ipa)"

text \<open>\<open>ip_component = int(ipa.split('.')[-1]) & 0xFF\<close>\<close>

definition ip_component_of :: "string \<Rightarrow> exn + int" where
  "ip_component_of ipa =
     (case py_int (last (split_on CHR ''.'' ipa)) of
        Inl e \<Rightarrow> Inl e
      | Inr n \<Rightarrow> Inr (n AND 255))"

subsection \<open>Lines 106-108, 115-125: the retry loop\<close>

definition current_time_offset :: int where
  "current_time_offset = 921700000000"

definition max_tries :: int where
  "max_tries = 1023"

text \<open>What the loop does that is visible from outside: each candidate it computes (with
  the clock reading and the index it was computed from) and each sleep.\<close>

datatype event = Tried int int int | Slept_ms nat

record uid_state =
  current_index :: int
  next_uid :: "int option"
  reads :: nat
  events :: "event list"

text \<open>Truth value of \<open>None\<close> or an integer: \<open>None\<close> and \<open>0\<close> are false.\<close>

fun truthy :: "int option \<Rightarrow> bool" where
  "truthy None = False"
| "truthy (Some v) = (v \<noteq> 0)"

definition uid_init :: uid_state where
  "uid_init = \<lparr>current_index = 0, next_uid = None, reads = 0, events = []\<rparr>"

text \<open>One pass through the body of the \<open>while\<close> (lines 117-125).\<close>

definition uid_body :: "host \<Rightarrow> int \<Rightarrow> int \<Rightarrow> int option \<Rightarrow> uid_state \<Rightarrow> uid_state" where
  "uid_body h deployment_context ip_component last_uid st =
     (let now = time_ms h (reads st);
          time_component = now - current_time_offset;
          time_component = push_bit 22 time_component;
          cand = time_component + push_bit 12 (current_index st)
                   + push_bit 8 deployment_context + ip_component;
          st1 = st\<lparr>next_uid := Some cand, reads := Suc (reads st),
                   events := events st @ [Tried now (current_index st) cand]\<rparr>;
          st2 = (if truthy last_uid \<and> last_uid = next_uid st1
                 then st1\<lparr>next_uid := None, current_index := current_index st1 + 1\<rparr>
                 else st1);
          st3 = (if \<not> truthy (next_uid st2) \<and> current_index st2 > max_tries
                 then st2\<lparr>events := events st2 @ [Slept_ms 500], current_index := 0\<rparr>
                 else st2)
      in st3)"

text \<open>\<open>while (current_index <= max_tries) and not next_uid\<close>. Nothing bounds the number
  of passes, so the loop is a partial function: \<open>None\<close> is a loop that never ends.\<close>

definition uid_continue :: "uid_state \<Rightarrow> bool" where
  "uid_continue st = (current_index st \<le> max_tries \<and> \<not> truthy (next_uid st))"

partial_function (option) uid_loop ::
  "host \<Rightarrow> int \<Rightarrow> int \<Rightarrow> int option \<Rightarrow> uid_state \<Rightarrow> uid_state option" where
  "uid_loop h deployment_context ip_component last_uid st =
     (if uid_continue st
      then uid_loop h deployment_context ip_component last_uid
             (uid_body h deployment_context ip_component last_uid st)
      else Some st)"

declare uid_loop.simps [code]

subsection \<open>Lines 126-129: after the loop\<close>

text \<open>A finished call: how it ended, what it printed, what the loop did.\<close>

record uid_run =
  ending :: "int outcome"
  printed :: "string list"
  did :: "event list"

text \<open>
  \<open>if not next_uid: print(...); sys.exit(-1)\<close>, then \<open>return next_uid\<close>. The name
  \<open>sys\<close> is looked up in the module's globals when the line runs.
\<close>

definition uid_finish :: "uid_state \<Rightarrow> uid_run" where
  "uid_finish st =
     (if \<not> truthy (next_uid st)
      then \<lparr>ending = (if ''sys'' \<in> set module_globals then Exited (- 1)
                      else Raised (NameError ''sys'')),
            printed = [''Could not generate JACS UID''],
            did = events st\<rparr>
      else \<lparr>ending = Returned (the (next_uid st)), printed = [], did = events st\<rparr>)"

text \<open>The whole function. \<open>None\<close>: the call never comes back.\<close>

definition generate_jacs_uid :: "host \<Rightarrow> int \<Rightarrow> int option \<Rightarrow> uid_run option" where
  "generate_jacs_uid h deployment_context last_uid =
     (case resolve_ipa h of
        Inl e \<Rightarrow> Some \<lparr>ending = Raised e, printed = [], did = []\<rparr>
      | Inr ipa \<Rightarrow>
          (case ip_component_of ipa of
             Inl e \<Rightarrow> Some \<lparr>ending = Raised e, printed = [], did = []\<rparr>
           | Inr ip_component \<Rightarrow>
               map_option uid_finish
                 (uid_loop h deployment_context ip_component last_uid uid_init)))"

subsection \<open>The caller's burst and the fields of an identifier\<close>

text \<open>
  Successive calls in one burst: the first without \<open>last_uid\<close>, each later one with the
  value the call before it returned. Every call sees the same resolver and the same
  clock. A call that does not return a value ends the burst.
\<close>

fun burst :: "host \<Rightarrow> int \<Rightarrow> nat \<Rightarrow> uid_run option" where
  "burst h deployment_context 0 = generate_jacs_uid h deployment_context None"
| "burst h deployment_context (Suc n) =
     (case burst h deployment_context n of
        None \<Rightarrow> None
      | Some r \<Rightarrow>
          (case ending r of
             Returned u \<Rightarrow> generate_jacs_uid h deployment_context (Some u)
           | Raised e \<Rightarrow> Some r
           | Exited c \<Rightarrow> Some r))"

text \<open>
  The source has no decoder. These are the four fields as the data model of the
  specification lays them out: host component in bits 0-7, deployment context in bits
  8-11, sequence index in bits 12-21, time component from bit 22 up
  (\<open>uid & 0xFF\<close>, \<open>(uid >> 8) & 0xF\<close>, \<open>(uid >> 12) & 0x3FF\<close>, \<open>uid >> 22\<close>).
\<close>

definition host_field :: "int \<Rightarrow> int" where
  "host_field uid = uid AND 255"

definition context_field :: "int \<Rightarrow> int" where
  "context_field uid = drop_bit 8 uid AND 15"

definition index_field :: "int \<Rightarrow> int" where
  "index_field uid = drop_bit 12 uid AND 1023"

definition time_field :: "int \<Rightarrow> int" where
  "time_field uid = drop_bit 22 uid"

section \<open>\<open>get_all_s3_objects\<close>\<close>

subsection \<open>Requests, responses and the client\<close>

text \<open>Keyword arguments are a dictionary in insertion order, with distinct keys.\<close>

datatype pyval = PInt int | PStr string

type_synonym kwargs = "(string \<times> pyval) list"

text \<open>
  The response dictionary of \<open>list_objects_v2\<close>, read through \<open>.get\<close>: each of the three
  keys may be absent. The flag is a boolean and the token a string, as the S3 API sends
  them.
\<close>

record 'e response =
  Contents :: "'e list option"
  IsTruncated :: "bool option"
  NextContinuationToken :: "string option"

text \<open>\<open>s3c k kw\<close> is what the call \<open>s3c.list_objects_v2(**kw)\<close> does when \<open>k\<close> calls have
  been made before: it raises or it returns a response.\<close>

type_synonym 'e s3client = "nat \<Rightarrow> kwargs \<Rightarrow> exn + 'e response"

text \<open>Truth value of \<open>None\<close> or a string, of \<open>None\<close> or a boolean.\<close>

fun truthy_str :: "string option \<Rightarrow> bool" where
  "truthy_str None = False"
| "truthy_str (Some s) = (s \<noteq> [])"

fun truthy_bool :: "bool option \<Rightarrow> bool" where
  "truthy_bool None = False"
| "truthy_bool (Some b) = b"

text \<open>
  Lines 23-25. \<open>dict(MaxKeys=1000, **base_kwargs)\<close> raises \<open>TypeError\<close> when
  \<open>base_kwargs\<close> has the key \<open>MaxKeys\<close> itself; the assignment replaces a
  \<open>ContinuationToken\<close> of \<open>base_kwargs\<close> or appends the key.
\<close>

definition build_list_kwargs :: "kwargs \<Rightarrow> string option \<Rightarrow> exn + kwargs" where
  "build_list_kwargs base_kwargs continuation_token =
     (if ''MaxKeys'' \<in> fst ` set base_kwargs
      then Inl (TypeError ''MaxKeys'')
      else (let list_kwargs = (''MaxKeys'', PInt 1000) # base_kwargs
            in Inr (if truthy_str continuation_token
                    then AList.update ''ContinuationToken''
                           (PStr (the continuation_token)) list_kwargs
                    else list_kwargs)))"

subsection \<open>The generator object\<close>

text \<open>
  A generator is suspended code. Its frame is either at the top of the \<open>while\<close> with
  the value of \<open>continuation_token\<close> (line 23; a new generator is there with
  \<open>None\<close>), or inside \<open>yield from\<close> with the entries of the page still to be yielded
  and the response (line 27), or closed. The history records what it has done so far.
\<close>

datatype 'e point = At_top "string option" | In_page "'e list" "'e response"

datatype 'e frame = Running "'e point" | Closed

datatype 'e action = Request kwargs | Yield 'e | Raise exn

record 'e generator =
  frame :: "'e frame"
  base :: kwargs
  history :: "'e action list"

text \<open>What one \<open>next(gen)\<close> gives the consumer.\<close>

datatype 'e pulled = Item 'e | StopIteration | Error exn

fun requests_of :: "'e action list \<Rightarrow> kwargs list" where
  "requests_of [] = []"
| "requests_of (Request kw # as) = kw # requests_of as"
| "requests_of (Yield e # as) = requests_of as"
| "requests_of (Raise x # as) = requests_of as"

fun yields_of :: "'e action list \<Rightarrow> 'e list" where
  "yields_of [] = []"
| "yields_of (Request kw # as) = yields_of as"
| "yields_of (Yield e # as) = e # yields_of as"
| "yields_of (Raise x # as) = yields_of as"

text \<open>\<open>response.get('Contents', [])\<close>\<close>

definition entries_of :: "'e response \<Rightarrow> 'e list" where
  "entries_of response = (case Contents response of None \<Rightarrow> [] | Some es \<Rightarrow> es)"

text \<open>
  Running the frame from a point to the next \<open>yield\<close>, to the \<open>break\<close> or to an
  exception. A server that keeps sending empty truncated pages keeps the loop going, so
  this is a partial function.
\<close>

partial_function (option) resume ::
  "'e s3client \<Rightarrow> kwargs \<Rightarrow> 'e action list \<Rightarrow> 'e point \<Rightarrow> ('e pulled \<times> 'e generator) option" where
  "resume s3c base_kwargs hist pt =
     (case pt of
        At_top continuation_token \<Rightarrow>
          (case build_list_kwargs base_kwargs continuation_token of
             Inl x \<Rightarrow>
               Some (Error x,
                 \<lparr>frame = Closed, base = base_kwargs, history = hist @ [Raise x]\<rparr>)
           | Inr list_kwargs \<Rightarrow>
               (case s3c (length (requests_of hist)) list_kwargs of
                  Inl x \<Rightarrow>
                    Some (Error x,
                      \<lparr>frame = Closed, base = base_kwargs,
                       history = hist @ [Request list_kwargs, Raise x]\<rparr>)
                | Inr response \<Rightarrow>
                    resume s3c base_kwargs (hist @ [Request list_kwargs])
                      (In_page (entries_of response) response)))
      | In_page [] response \<Rightarrow>
          if \<not> truthy_bool (IsTruncated response)
          then Some (StopIteration,
                 \<lparr>frame = Closed, base = base_kwargs, history = hist\<rparr>)
          else resume s3c base_kwargs hist (At_top (NextContinuationToken response))
      | In_page (e # rest) response \<Rightarrow>
          Some (Item e,
            \<lparr>frame = Running (In_page rest response), base = base_kwargs,
             history = hist @ [Yield e]\<rparr>))"

declare resume.simps [code]

text \<open>Calling the generator function runs none of its body.\<close>

definition get_all_s3_objects :: "kwargs \<Rightarrow> 'e generator" where
  "get_all_s3_objects base_kwargs =
     \<lparr>frame = Running (At_top None), base = base_kwargs, history = []\<rparr>"

text \<open>\<open>next(gen)\<close>. A closed generator raises \<open>StopIteration\<close> and does nothing else.\<close>

definition next_item ::
  "'e s3client \<Rightarrow> 'e generator \<Rightarrow> ('e pulled \<times> 'e generator) option" where
  "next_item s3c g =
     (case frame g of
        Closed \<Rightarrow> Some (StopIteration, g)
      | Running pt \<Rightarrow> resume s3c (base g) (history g) pt)"

text \<open>
  The consumer that pulls until the generator ends (\<open>for obj in gen\<close>, \<open>list(gen)\<close>):
  the items it received, the exception that reached it if one did, and the generator.
\<close>

partial_function (option) drain ::
  "'e s3client \<Rightarrow> 'e generator \<Rightarrow> 'e list \<Rightarrow> ('e list \<times> exn option \<times> 'e generator) option" where
  "drain s3c g got =
     (case next_item s3c g of
        None \<Rightarrow> None
      | Some (Item e, g') \<Rightarrow> drain s3c g' (got @ [e])
      | Some (StopIteration, g') \<Rightarrow> Some (got, None, g')
      | Some (Error x, g') \<Rightarrow> Some (got, Some x, g'))"

declare drain.simps [code]

section \<open>Notions used in the statements\<close>

text \<open>The candidate of one pass of the retry loop, in arithmetic: shifts as
  multiplications by powers of two.\<close>

definition packed :: "int \<Rightarrow> int \<Rightarrow> int \<Rightarrow> int \<Rightarrow> int" where
  "packed now i dc ip = (now - 921700000000) * 4194304 + i * 4096 + dc * 256 + ip"

text \<open>
  What holds of the loop state at every test of the \<open>while\<close> condition: the index is
  between 0 and 1023, a candidate that is kept differs from a true \<open>last_uid\<close> and was
  tried, and every candidate tried so far is packed from a clock reading and an index.
\<close>

definition uid_inv :: "host \<Rightarrow> int \<Rightarrow> int \<Rightarrow> int option \<Rightarrow> uid_state \<Rightarrow> bool" where
  "uid_inv h dc ip lu s =
     (0 \<le> current_index s \<and> current_index s \<le> 1023 \<and>
      (\<forall>v. next_uid s = Some v \<longrightarrow>
         (truthy lu \<longrightarrow> lu \<noteq> Some v) \<and>
         (\<exists>now i. Tried now i v \<in> set (events s))) \<and>
      (\<forall>now i c. Tried now i c \<in> set (events s) \<longrightarrow>
         c = packed now i dc ip \<and> 0 \<le> i \<and> i \<le> 1023 \<and> (\<exists>k. now = time_ms h k)))"

text \<open>The index is 0, or it is 1 after a collision at index 0; nothing was slept.\<close>

definition low_index :: "int \<Rightarrow> int \<Rightarrow> int option \<Rightarrow> uid_state \<Rightarrow> bool" where
  "low_index dc ip lu s =
     ((current_index s = 0 \<or>
       (current_index s = 1 \<and> (\<exists>t0. lu = Some (packed t0 0 dc ip)))) \<and>
      Slept_ms 500 \<notin> set (events s))"

text \<open>The value of a finished call, when it returned one.\<close>

definition returned_value :: "uid_run option \<Rightarrow> int option" where
  "returned_value run =
     (case run of
        None \<Rightarrow> None
      | Some r \<Rightarrow>
          (case ending r of
             Returned v \<Rightarrow> Some v
           | Raised e \<Rightarrow> None
           | Exited c \<Rightarrow> None))"

text \<open>A machine whose name resolves to 10.36.13.7 and whose clock stands still at
  1700000000000 ms (14 November 2023).\<close>

definition still_host :: host where
  "still_host =
     \<lparr>gethostname = Inr ''node'',
      gethostbyname = (\<lambda>k name. Inr ''10.36.13.7''),
      time_ms = (\<lambda>k. 1700000000000)\<rparr>"

text \<open>A machine whose address ends in 0 and whose clock stands one millisecond before
  the epoch offset.\<close>

definition epoch_host :: host where
  "epoch_host =
     \<lparr>gethostname = Inr ''node'',
      gethostbyname = (\<lambda>k name. Inr ''10.36.13.0''),
      time_ms = (\<lambda>k. 921699999999)\<rparr>"

text \<open>A machine whose own name does not resolve; \<open>localhost\<close> does.\<close>

definition offline_host :: host where
  "offline_host =
     \<lparr>gethostname = Inr ''node'',
      gethostbyname = (\<lambda>k name. if name = ''localhost'' then Inr ''127.0.0.1''
                                 else Inl (OSError ''Name or service not known'')),
      time_ms = (\<lambda>k. 1700000000000)\<rparr>"

text \<open>The first request of a generator whose \<open>base_kwargs\<close> has no \<open>MaxKeys\<close>.\<close>

definition first_request :: "kwargs \<Rightarrow> kwargs" where
  "first_request base_kwargs = (''MaxKeys'', PInt 1000) # base_kwargs"


text \<open>A listing of a bucket, and three clients: one that serves two pages, one whose
  second call fails, and one that answers every call with the same truncated page
  without a token.\<close>

definition flylight_kwargs :: kwargs where
  "flylight_kwargs =
     [(''Bucket'', PStr ''janelia-flylight-color-depth''), (''Prefix'', PStr ''JRC2018_Unisex'')]"

definition two_page_client :: "string s3client" where
  "two_page_client k kw =
     (if k = 0
      then Inr \<lparr>Contents = Some [''a'', ''b''], IsTruncated = Some True,
                NextContinuationToken = Some ''X''\<rparr>
      else if k = 1
      then Inr \<lparr>Contents = Some [''c''], IsTruncated = Some False,
                NextContinuationToken = None\<rparr>
      else Inl (OSError ''no such page''))"

definition failing_client :: "string s3client" where
  "failing_client k kw =
     (if k = 0
      then Inr \<lparr>Contents = Some [''a'', ''b''], IsTruncated = Some True,
                NextContinuationToken = Some ''X''\<rparr>
      else Inl (OSError ''connection reset''))"


section \<open>Bit fields\<close>

lemma and_255: "(x::int) AND 255 = x mod 256"
proof -
  have "(255::int) = mask 8" by (simp add: mask_eq_exp_minus_1)
  then have "x AND 255 = take_bit 8 x" by (simp add: take_bit_eq_mask)
  then show ?thesis by (simp add: take_bit_eq_mod)
qed

lemma and_15: "(x::int) AND 15 = x mod 16"
proof -
  have "(15::int) = mask 4" by (simp add: mask_eq_exp_minus_1)
  then have "x AND 15 = take_bit 4 x" by (simp add: take_bit_eq_mask)
  then show ?thesis by (simp add: take_bit_eq_mod)
qed

lemma and_1023: "(x::int) AND 1023 = x mod 1024"
proof -
  have "(1023::int) = mask 10" by (simp add: mask_eq_exp_minus_1)
  then have "x AND 1023 = take_bit 10 x" by (simp add: take_bit_eq_mask)
  then show ?thesis by (simp add: take_bit_eq_mod)
qed

lemma ip_component_range:
  "ip_component_of ipa = Inr ip \<Longrightarrow> 0 \<le> ip \<and> ip < 256"
  by (auto simp add: ip_component_of_def and_255 split: sum.splits)

lemma pack_div_mod:
  fixes a m r :: int
  assumes "0 \<le> r" "r < m"
  shows "(a * m + r) div m = a" and "(a * m + r) mod m = r"
  using assms by simp_all

lemma packed_fields:
  assumes "0 \<le> ip" "ip < 256" "0 \<le> dc" "dc < 16" "0 \<le> i" "i < 1024"
  shows "host_field (packed now i dc ip) = ip"
    and "context_field (packed now i dc ip) = dc"
    and "index_field (packed now i dc ip) = i"
    and "time_field (packed now i dc ip) = now - 921700000000"
proof -
  define t where "t = now - 921700000000"
  have p8: "packed now i dc ip = (t * 16384 + i * 16 + dc) * 256 + ip"
    by (simp add: packed_def t_def algebra_simps)
  have p12: "packed now i dc ip = (t * 1024 + i) * 4096 + (dc * 256 + ip)"
    by (simp add: packed_def t_def algebra_simps)
  have p22: "packed now i dc ip = t * 4194304 + (i * 4096 + dc * 256 + ip)"
    by (simp add: packed_def t_def algebra_simps)
  have c: "t * 16384 + i * 16 + dc = (t * 1024 + i) * 16 + dc"
    by (simp add: algebra_simps)
  have r12: "0 \<le> dc * 256 + ip" "dc * 256 + ip < 4096"
    using assms by auto
  have r22: "0 \<le> i * 4096 + dc * 256 + ip" "i * 4096 + dc * 256 + ip < 4194304"
    using assms by auto
  have "packed now i dc ip mod 256 = ip"
    unfolding p8 using assms(1,2) by (rule pack_div_mod(2))
  then show "host_field (packed now i dc ip) = ip"
    by (simp add: host_field_def and_255)
  have "packed now i dc ip div 256 = t * 16384 + i * 16 + dc"
    unfolding p8 using assms(1,2) by (rule pack_div_mod(1))
  moreover have "(t * 16384 + i * 16 + dc) mod 16 = dc"
    unfolding c using assms(3,4) by (rule pack_div_mod(2))
  ultimately show "context_field (packed now i dc ip) = dc"
    by (simp add: context_field_def and_15 drop_bit_eq_div)
  have "packed now i dc ip div 4096 = t * 1024 + i"
    unfolding p12 using r12 by (rule pack_div_mod(1))
  moreover have "(t * 1024 + i) mod 1024 = i"
    using assms(5,6) by (rule pack_div_mod(2))
  ultimately show "index_field (packed now i dc ip) = i"
    by (simp add: index_field_def and_1023 drop_bit_eq_div)
  have "packed now i dc ip div 4194304 = t"
    unfolding p22 using r22 by (rule pack_div_mod(1))
  then show "time_field (packed now i dc ip) = now - 921700000000"
    by (simp add: time_field_def drop_bit_eq_div t_def)
qed

section \<open>The retry loop: what every test of its condition finds\<close>

text \<open>A property that the first state has and that a pass of the body keeps holds when the
  loop ends, together with the negation of the loop condition.\<close>

lemma uid_loop_invariant:
  assumes run: "uid_loop h dc ip lu st = Some st'"
    and init: "I st"
    and step: "\<And>s. I s \<Longrightarrow> uid_continue s \<Longrightarrow> I (uid_body h dc ip lu s)"
  shows "I st' \<and> \<not> uid_continue st'"
proof -
  have "h0 = h \<and> dc0 = dc \<and> ip0 = ip \<and> lu0 = lu \<longrightarrow> I s0 \<longrightarrow> I y \<and> \<not> uid_continue y"
    if "uid_loop h0 dc0 ip0 lu0 s0 = Some y" for h0 dc0 ip0 lu0 s0 y
  proof (rule uid_loop.raw_induct
      [where P = "\<lambda>h0 dc0 ip0 lu0 s0 y.
         h0 = h \<and> dc0 = dc \<and> ip0 = ip \<and> lu0 = lu \<longrightarrow> I s0 \<longrightarrow> I y \<and> \<not> uid_continue y",
       OF _ that])
    fix loop :: "host \<Rightarrow> int \<Rightarrow> int \<Rightarrow> int option \<Rightarrow> uid_state \<Rightarrow> uid_state option"
    fix h1 dc1 ip1 lu1 s1 y1
    assume IH: "\<And>h2 dc2 ip2 lu2 s2 y2. loop h2 dc2 ip2 lu2 s2 = Some y2 \<Longrightarrow>
        h2 = h \<and> dc2 = dc \<and> ip2 = ip \<and> lu2 = lu \<longrightarrow> I s2 \<longrightarrow> I y2 \<and> \<not> uid_continue y2"
    assume unf: "(if uid_continue s1 then loop h1 dc1 ip1 lu1 (uid_body h1 dc1 ip1 lu1 s1)
                  else Some s1) = Some y1"
    show "h1 = h \<and> dc1 = dc \<and> ip1 = ip \<and> lu1 = lu \<longrightarrow> I s1 \<longrightarrow> I y1 \<and> \<not> uid_continue y1"
    proof (intro impI)
      assume same: "h1 = h \<and> dc1 = dc \<and> ip1 = ip \<and> lu1 = lu" and inv: "I s1"
      show "I y1 \<and> \<not> uid_continue y1"
      proof (cases "uid_continue s1")
        case True
        with unf same have "loop h dc ip lu (uid_body h dc ip lu s1) = Some y1"
          by simp
        from IH[OF this]
        have "I (uid_body h dc ip lu s1) \<longrightarrow> I y1 \<and> \<not> uid_continue y1"
          by simp
        moreover have "I (uid_body h dc ip lu s1)"
          using step[OF inv True] .
        ultimately show ?thesis by simp
      next
        case False
        with unf have "y1 = s1" by simp
        with False inv show ?thesis by simp
      qed
    qed
  qed
  from this[OF run] init show ?thesis by simp
qed


lemma uid_inv_init: "uid_inv h dc ip lu uid_init"
  by (simp add: uid_inv_def uid_init_def)

lemma uid_body_events:
  "\<exists>tl. events (uid_body h dc ip lu s) =
     events s @ Tried (time_ms h (reads s)) (current_index s)
                  (packed (time_ms h (reads s)) (current_index s) dc ip) # tl
     \<and> (tl = [] \<or> tl = [Slept_ms 500])"
  by (simp add: uid_body_def Let_def packed_def push_bit_eq_mult current_time_offset_def)

lemma uid_body_next_uid:
  "next_uid (uid_body h dc ip lu s) = None \<or>
   (next_uid (uid_body h dc ip lu s) =
      Some (packed (time_ms h (reads s)) (current_index s) dc ip)
    \<and> \<not> (truthy lu \<and> lu = Some (packed (time_ms h (reads s)) (current_index s) dc ip)))"
  by (cases lu)
    (auto simp add: uid_body_def Let_def packed_def push_bit_eq_mult current_time_offset_def)

lemma uid_body_index_range:
  assumes "0 \<le> current_index s" "current_index s \<le> 1023"
  shows "0 \<le> current_index (uid_body h dc ip lu s) \<and> current_index (uid_body h dc ip lu s) \<le> 1023"
  using assms by (simp add: uid_body_def Let_def max_tries_def)

lemma uid_inv_step:
  assumes "uid_inv h dc ip lu s"
  shows "uid_inv h dc ip lu (uid_body h dc ip lu s)"
proof -
  let ?s' = "uid_body h dc ip lu s"
  let ?now = "time_ms h (reads s)"
  let ?c = "packed ?now (current_index s) dc ip"
  from assms have idx: "0 \<le> current_index s" "current_index s \<le> 1023"
    and old: "\<And>now i c. Tried now i c \<in> set (events s) \<Longrightarrow>
         c = packed now i dc ip \<and> 0 \<le> i \<and> i \<le> 1023 \<and> (\<exists>k. now = time_ms h k)"
    by (simp_all add: uid_inv_def)
  obtain tl where ev: "events ?s' = events s @ Tried ?now (current_index s) ?c # tl"
    and tl: "tl = [] \<or> tl = [Slept_ms 500]"
    using uid_body_events by blast
  have a: "0 \<le> current_index ?s' \<and> current_index ?s' \<le> 1023"
    using idx by (rule uid_body_index_range)
  have b: "(truthy lu \<longrightarrow> lu \<noteq> Some v) \<and> (\<exists>now i. Tried now i v \<in> set (events ?s'))"
    if "next_uid ?s' = Some v" for v
  proof -
    from that uid_body_next_uid[of h dc ip lu s]
    have "v = ?c" and "\<not> (truthy lu \<and> lu = Some ?c)" by auto
    then show ?thesis using ev by auto
  qed
  have c: "c = packed now i dc ip \<and> 0 \<le> i \<and> i \<le> 1023 \<and> (\<exists>k. now = time_ms h k)"
    if "Tried now i c \<in> set (events ?s')" for now i c
  proof -
    from that ev tl have "Tried now i c \<in> set (events s) \<or> Tried now i c = Tried ?now (current_index s) ?c"
      by auto
    then show ?thesis
    proof
      assume "Tried now i c \<in> set (events s)"
      then show ?thesis by (rule old)
    next
      assume "Tried now i c = Tried ?now (current_index s) ?c"
      then show ?thesis using idx by auto
    qed
  qed
  show ?thesis
    unfolding uid_inv_def using a b c by blast
qed

lemma uid_loop_exit:
  assumes "uid_loop h dc ip lu uid_init = Some st"
  shows "uid_inv h dc ip lu st \<and> truthy (next_uid st)"
proof -
  have "uid_inv h dc ip lu st \<and> \<not> uid_continue st"
    using assms uid_inv_init
  proof (rule uid_loop_invariant)
    fix s assume "uid_inv h dc ip lu s"
    then show "uid_inv h dc ip lu (uid_body h dc ip lu s)" by (rule uid_inv_step)
  qed
  then show ?thesis
    by (auto simp add: uid_continue_def uid_inv_def max_tries_def)
qed

lemma generate_cases:
  assumes "generate_jacs_uid h dc lu = Some r"
  shows "(\<exists>e. ending r = Raised e \<and> printed r = [] \<and> did r = [] \<and>
              (resolve_ipa h = Inl e \<or>
               (\<exists>ipa. resolve_ipa h = Inr ipa \<and> ip_component_of ipa = Inl e)))
       \<or> (\<exists>ipa ip st. resolve_ipa h = Inr ipa \<and> ip_component_of ipa = Inr ip \<and>
              uid_loop h dc ip lu uid_init = Some st \<and> r = uid_finish st)"
  using assms by (auto simp add: generate_jacs_uid_def split: sum.splits)

lemma generate_returned:
  assumes "generate_jacs_uid h dc lu = Some r" and "ending r = Returned v"
  shows "\<exists>ipa ip st. resolve_ipa h = Inr ipa \<and> ip_component_of ipa = Inr ip \<and>
           uid_loop h dc ip lu uid_init = Some st \<and> r = uid_finish st \<and>
           next_uid st = Some v \<and> v \<noteq> 0 \<and> uid_inv h dc ip lu st"
proof -
  from generate_cases[OF assms(1)] assms(2)
  obtain ipa ip st where res: "resolve_ipa h = Inr ipa" "ip_component_of ipa = Inr ip"
    and lp: "uid_loop h dc ip lu uid_init = Some st" and r: "r = uid_finish st"
    by auto
  from uid_loop_exit[OF lp] have inv: "uid_inv h dc ip lu st" and tr: "truthy (next_uid st)"
    by simp_all
  from tr obtain w where w: "next_uid st = Some w" "w \<noteq> 0"
    by (cases "next_uid st") auto
  with r assms(2) have "w = v" by (simp add: uid_finish_def)
  with res lp r w inv show ?thesis by blast
qed

section \<open>The identifier generator\<close>

text \<open>
  C1. Whatever the resolver and the clock do, a call of \<open>generate_jacs_uid\<close> that
  returns a value never returns the \<open>last_uid\<close> it was given. This covers
  \<open>last_uid = 0\<close>: the loop only ends on a candidate that is not zero.
\<close>

theorem generate_jacs_uid_differs_from_last_uid:
  assumes "generate_jacs_uid h deployment_context last_uid = Some r"
    and "ending r = Returned v"
  shows "last_uid \<noteq> Some v"
proof -
  from generate_returned[OF assms]
  obtain ip st where nx: "next_uid st = Some v" and nz: "v \<noteq> 0"
    and inv: "uid_inv h deployment_context ip last_uid st"
    by blast
  show ?thesis
  proof (cases "truthy last_uid")
    case True
    with inv nx show ?thesis by (simp add: uid_inv_def)
  next
    case False
    then have "last_uid = None \<or> last_uid = Some 0"
      by (cases last_uid) auto
    with nz show ?thesis by auto
  qed
qed

text \<open>A call on a standing clock whose first candidate is the \<open>last_uid\<close>: it returns
  the candidate of index 1.\<close>

theorem generate_jacs_uid_differs_from_last_uid_witness:
  "generate_jacs_uid still_host 2 (Some 3264426803200000519) =
     Some \<lparr>ending = Returned 3264426803200004615, printed = [],
           did = [Tried 1700000000000 0 3264426803200000519,
                  Tried 1700000000000 1 3264426803200004615]\<rparr>
   \<and> Some 3264426803200000519 \<noteq> Some (3264426803200004615 :: int)"
proof -
  let ?r = "\<lparr>ending = Returned 3264426803200004615, printed = [],
             did = [Tried 1700000000000 0 3264426803200000519,
                    Tried 1700000000000 1 3264426803200004615]\<rparr>"
  have run: "generate_jacs_uid still_host 2 (Some 3264426803200000519) = Some ?r"
    by code_simp
  have e: "ending ?r = Returned 3264426803200004615"
    by simp
  from generate_jacs_uid_differs_from_last_uid [OF run e] run show ?thesis
    by simp
qed

subsection \<open>Concrete runs\<close>

lemma still_host_resolves:
  "resolve_ipa still_host = Inr ''10.36.13.7''" "ip_component_of ''10.36.13.7'' = Inr 7"
  by code_simp+

lemma still_host_run:
  "generate_jacs_uid still_host 2 (Some 3264426803200000519) =
     Some \<lparr>ending = Returned 3264426803200004615, printed = [],
           did = [Tried 1700000000000 0 3264426803200000519,
                  Tried 1700000000000 1 3264426803200004615]\<rparr>"
  by code_simp

lemma offline_host_facts:
  "resolve_local offline_host = (Inl (OSError ''Name or service not known''), 1)"
  "gethostbyname offline_host 1 ''localhost'' = Inr ''127.0.0.1''"
  "ip_component_of ''127.0.0.1'' = Inr 1"
  "generate_jacs_uid offline_host 2 None =
     Some \<lparr>ending = Returned 3264426803200000513, printed = [],
           did = [Tried 1700000000000 0 3264426803200000513]\<rparr>"
  by code_simp+

subsection \<open>The form of the candidates\<close>

lemma packed_shift:
  "push_bit 22 (now - 921700000000) + push_bit 12 i + push_bit 8 dc + ip = packed now i dc ip"
  by (simp add: packed_def push_bit_eq_mult)

lemma ip_component_octet:
  "ip_component_of ipa = Inr ip \<Longrightarrow>
     \<exists>octet. py_int (last (split_on CHR ''.'' ipa)) = Inr octet \<and> ip = octet AND 255"
  by (auto simp add: ip_component_of_def split: sum.splits)

lemma uid_finish_did: "did (uid_finish st) = events st"
  by (simp add: uid_finish_def)

text \<open>
  C2. In every finished call, each candidate the loop computed is
  \<open>((now - 921700000000) << 22) + (retry_index << 12) + (deployment_context << 8) + host\<close>,
  where \<open>now\<close> is a reading of the clock, \<open>retry_index\<close> the index at that pass and
  \<open>host\<close> the last dotted field of the resolved address, read as an integer and masked
  to 8 bits; and a value that is returned is one of these candidates.
\<close>

theorem candidates_are_bit_packed:
  assumes "generate_jacs_uid h deployment_context last_uid = Some r"
  shows "(\<forall>now retry_index cand. Tried now retry_index cand \<in> set (did r) \<longrightarrow>
            (\<exists>ipa octet k.
               resolve_ipa h = Inr ipa \<and>
               py_int (last (split_on CHR ''.'' ipa)) = Inr octet \<and>
               now = time_ms h k \<and>
               cand = push_bit 22 (now - 921700000000) + push_bit 12 retry_index
                        + push_bit 8 deployment_context + (octet AND 255)))
       \<and> (\<forall>v. ending r = Returned v \<longrightarrow>
            (\<exists>now retry_index. Tried now retry_index v \<in> set (did r)))"
proof (intro conjI allI impI)
  fix now retry_index cand
  assume tried: "Tried now retry_index cand \<in> set (did r)"
  from generate_cases[OF assms] tried
  obtain ipa ip st where res: "resolve_ipa h = Inr ipa" and ipc: "ip_component_of ipa = Inr ip"
    and lp: "uid_loop h deployment_context ip last_uid uid_init = Some st"
    and r: "r = uid_finish st"
    by auto
  from ip_component_octet[OF ipc] obtain octet
    where oct: "py_int (last (split_on CHR ''.'' ipa)) = Inr octet" "ip = octet AND 255"
    by blast
  from uid_loop_exit[OF lp] have inv: "uid_inv h deployment_context ip last_uid st"
    by simp
  from tried r have "Tried now retry_index cand \<in> set (events st)"
    by (simp add: uid_finish_did)
  with inv have "cand = packed now retry_index deployment_context ip" "\<exists>k. now = time_ms h k"
    unfolding uid_inv_def by blast+
  with res oct show "\<exists>ipa octet k.
               resolve_ipa h = Inr ipa \<and>
               py_int (last (split_on CHR ''.'' ipa)) = Inr octet \<and>
               now = time_ms h k \<and>
               cand = push_bit 22 (now - 921700000000) + push_bit 12 retry_index
                        + push_bit 8 deployment_context + (octet AND 255)"
    by (auto simp add: packed_shift)
next
  fix v assume "ending r = Returned v"
  from generate_returned[OF assms this]
  obtain ip st where r: "r = uid_finish st" and nx: "next_uid st = Some v"
    and inv: "uid_inv h deployment_context ip last_uid st"
    by blast
  from inv nx have "\<exists>now i. Tried now i v \<in> set (events st)"
    unfolding uid_inv_def by blast
  with r show "\<exists>now retry_index. Tried now retry_index v \<in> set (did r)"
    by (simp add: uid_finish_did)
qed

theorem candidates_are_bit_packed_witness:
  "generate_jacs_uid still_host 2 (Some 3264426803200000519) =
     Some \<lparr>ending = Returned 3264426803200004615, printed = [],
           did = [Tried 1700000000000 0 3264426803200000519,
                  Tried 1700000000000 1 3264426803200004615]\<rparr>
   \<and> (\<exists>ipa octet k.
         resolve_ipa still_host = Inr ipa \<and>
         py_int (last (split_on CHR ''.'' ipa)) = Inr octet \<and>
         1700000000000 = time_ms still_host k \<and>
         (3264426803200004615 :: int) =
           push_bit 22 (1700000000000 - 921700000000) + push_bit 12 1 + push_bit 8 2
             + (octet AND 255))
   \<and> (\<exists>now retry_index.
         Tried now retry_index 3264426803200004615 \<in>
           set [Tried 1700000000000 0 3264426803200000519,
                Tried 1700000000000 1 3264426803200004615])"
proof -
  let ?r = "\<lparr>ending = Returned 3264426803200004615, printed = [],
             did = [Tried 1700000000000 0 3264426803200000519,
                    Tried 1700000000000 1 3264426803200004615]\<rparr>"
  note run = still_host_run
  have mem: "Tried 1700000000000 1 3264426803200004615 \<in> set (did ?r)"
    by simp
  have e: "ending ?r = Returned 3264426803200004615"
    by simp
  note inst = candidates_are_bit_packed [OF run]
  from inst [THEN conjunct1, rule_format, OF mem]
    inst [THEN conjunct2, rule_format, OF e] run
  show ?thesis by simp
qed

subsection \<open>Calls that return\<close>

lemma uid_loop_unfold_continue:
  "uid_continue st \<Longrightarrow>
     uid_loop h dc ip lu st = uid_loop h dc ip lu (uid_body h dc ip lu st)"
  by (subst uid_loop.simps) simp

lemma uid_loop_unfold_stop:
  "\<not> uid_continue st \<Longrightarrow> uid_loop h dc ip lu st = Some st"
  by (subst uid_loop.simps) simp

lemma packed_index_differs: "packed t0 0 dc ip \<noteq> packed t1 1 dc ip"
proof
  assume "packed t0 0 dc ip = packed t1 1 dc ip"
  then have "(t0 - t1) * 1024 = 1"
    by (simp add: packed_def algebra_simps)
  then have "((t0 - t1) * 1024) mod 1024 = 1 mod (1024 :: int)"
    by simp
  then show False by simp
qed

lemma uid_loop_two_passes:
  assumes nz0: "packed (time_ms h 0) 0 dc ip \<noteq> 0"
    and nz1: "packed (time_ms h 1) 1 dc ip \<noteq> 0"
  shows "uid_loop h dc ip lu uid_init =
     Some (if lu = Some (packed (time_ms h 0) 0 dc ip)
           then \<lparr>current_index = 1, next_uid = Some (packed (time_ms h 1) 1 dc ip), reads = 2,
                 events = [Tried (time_ms h 0) 0 (packed (time_ms h 0) 0 dc ip),
                           Tried (time_ms h 1) 1 (packed (time_ms h 1) 1 dc ip)]\<rparr>
           else \<lparr>current_index = 0, next_uid = Some (packed (time_ms h 0) 0 dc ip), reads = 1,
                 events = [Tried (time_ms h 0) 0 (packed (time_ms h 0) 0 dc ip)]\<rparr>)"
proof -
  let ?t0 = "time_ms h 0" and ?t1 = "time_ms h 1"
  let ?c0 = "packed ?t0 0 dc ip" and ?c1 = "packed ?t1 1 dc ip"
  let ?s1 = "\<lparr>current_index = 1, next_uid = None, reads = 1, events = [Tried ?t0 0 ?c0]\<rparr>"
  let ?s2 = "\<lparr>current_index = 1, next_uid = Some ?c1, reads = 2,
               events = [Tried ?t0 0 ?c0, Tried ?t1 1 ?c1]\<rparr>"
  let ?s0 = "\<lparr>current_index = 0, next_uid = Some ?c0, reads = 1, events = [Tried ?t0 0 ?c0]\<rparr>"
  have c01: "?c0 \<noteq> ?c1" by (rule packed_index_differs)
  have start: "uid_continue uid_init"
    by (simp add: uid_continue_def uid_init_def max_tries_def)
  show ?thesis
  proof (cases "lu = Some ?c0")
    case True
    have b1: "uid_body h dc ip lu uid_init = ?s1"
      using True nz0 by (simp add: uid_body_def uid_init_def Let_def packed_def push_bit_eq_mult
          current_time_offset_def max_tries_def)
    have k1: "uid_continue ?s1"
      by (simp add: uid_continue_def max_tries_def)
    have b2: "uid_body h dc ip lu ?s1 = ?s2"
      using True c01 by (simp add: uid_body_def Let_def packed_def push_bit_eq_mult
          current_time_offset_def max_tries_def)
    have k2: "\<not> uid_continue ?s2"
      using nz1 by (simp add: uid_continue_def)
    have "uid_loop h dc ip lu uid_init = uid_loop h dc ip lu ?s1"
      using uid_loop_unfold_continue[OF start] b1 by simp
    also have "\<dots> = uid_loop h dc ip lu ?s2"
      using uid_loop_unfold_continue[OF k1] b2 by simp
    also have "\<dots> = Some ?s2"
      using k2 by (rule uid_loop_unfold_stop)
    finally show ?thesis using True by simp
  next
    case False
    have b1: "uid_body h dc ip lu uid_init = ?s0"
      using False by (simp add: uid_body_def uid_init_def Let_def packed_def push_bit_eq_mult
          current_time_offset_def max_tries_def)
    have k0: "\<not> uid_continue ?s0"
      using nz0 by (simp add: uid_continue_def)
    have "uid_loop h dc ip lu uid_init = uid_loop h dc ip lu ?s0"
      using uid_loop_unfold_continue[OF start] b1 by simp
    also have "\<dots> = Some ?s0"
      using k0 by (rule uid_loop_unfold_stop)
    finally show ?thesis using False by simp
  qed
qed

lemma packed_positive:
  assumes "921700000000 < now" "0 \<le> i" "0 \<le> dc" "0 \<le> ip"
  shows "0 < packed now i dc ip"
proof -
  have "0 < (now - 921700000000) * 4194304" using assms(1) by simp
  moreover have "0 \<le> i * 4096 + dc * 256 + ip" using assms(2-4) by simp
  ultimately show ?thesis by (simp add: packed_def)
qed

text \<open>With a clock that is past the epoch offset and a deployment context that is not
  negative, a call whose host component was computed returns after one or two passes.\<close>

lemma generate_jacs_uid_returns:
  assumes "\<forall>k. 921700000000 < time_ms h k" and "0 \<le> dc"
    and "resolve_ipa h = Inr ipa" and "ip_component_of ipa = Inr ip"
  shows "\<exists>r v. generate_jacs_uid h dc lu = Some r \<and> ending r = Returned v \<and> printed r = []
           \<and> length (did r) \<le> 2"
proof -
  from ip_component_range[OF assms(4)] have ip: "0 \<le> ip" by simp
  have nz0: "packed (time_ms h 0) 0 dc ip \<noteq> 0"
    using packed_positive[of "time_ms h 0" 0 dc ip] assms(1,2) ip by simp
  have nz1: "packed (time_ms h 1) 1 dc ip \<noteq> 0"
    using packed_positive[of "time_ms h 1" 1 dc ip] assms(1,2) ip by simp
  show ?thesis
    using nz0 nz1
    by (simp add: generate_jacs_uid_def assms(3,4) uid_loop_two_passes[OF nz0 nz1]
        uid_finish_def)
qed

lemma low_index_step:
  assumes "low_index dc ip lu s"
  shows "low_index dc ip lu (uid_body h dc ip lu s)"
proof -
  from assms have ns: "Slept_ms 500 \<notin> set (events s)"
    by (simp add: low_index_def)
  from assms consider (zero) "current_index s = 0"
    | (one) t0 where "current_index s = 1" "lu = Some (packed t0 0 dc ip)"
    by (auto simp add: low_index_def)
  then show ?thesis
  proof cases
    case zero
    have "push_bit 22 (time_ms h (reads s) - current_time_offset) + push_bit 12 0
            + push_bit 8 dc + ip = packed (time_ms h (reads s)) 0 dc ip"
      by (simp add: packed_def push_bit_eq_mult current_time_offset_def)
    with zero ns show ?thesis
      by (auto simp add: low_index_def uid_body_def Let_def max_tries_def)
  next
    case one
    have c: "push_bit 22 (time_ms h (reads s) - current_time_offset) + push_bit 12 1
            + push_bit 8 dc + ip = packed (time_ms h (reads s)) 1 dc ip"
      by (simp add: packed_def push_bit_eq_mult current_time_offset_def)
    have "lu \<noteq> Some (packed (time_ms h (reads s)) 1 dc ip)"
      using one(2) packed_index_differs[of t0 dc ip "time_ms h (reads s)"] by simp
    with one ns c show ?thesis
      by (auto simp add: low_index_def uid_body_def Let_def max_tries_def)
  qed
qed

text \<open>No finished call has slept: the sweep of the index to 1023 does not happen.\<close>

lemma generate_jacs_uid_never_sleeps:
  assumes "generate_jacs_uid h dc lu = Some r"
  shows "Slept_ms 500 \<notin> set (did r)"
proof -
  from generate_cases[OF assms]
  consider (raised) "did r = []"
    | (looped) ip st where "uid_loop h dc ip lu uid_init = Some st" "r = uid_finish st"
    by blast
  then show ?thesis
  proof cases
    case raised
    then show ?thesis by simp
  next
    case (looped ip st)
    then have lp: "uid_loop h dc ip lu uid_init = Some st" and r: "r = uid_finish st"
      by simp_all
    have "low_index dc ip lu st \<and> \<not> uid_continue st"
      using lp
    proof (rule uid_loop_invariant)
      show "low_index dc ip lu uid_init"
        by (simp add: low_index_def uid_init_def)
    next
      fix s assume "low_index dc ip lu s"
      then show "low_index dc ip lu (uid_body h dc ip lu s)" by (rule low_index_step)
    qed
    with r show ?thesis by (simp add: low_index_def uid_finish_did)
  qed
qed

subsection \<open>A standing clock\<close>

lemma uid_loop_standing_clock:
  assumes clock: "\<And>k. time_ms h k = t"
    and nz0: "packed t 0 dc ip \<noteq> 0" and nz1: "packed t 1 dc ip \<noteq> 0"
  shows "uid_loop h dc ip lu uid_init =
     Some (if lu = Some (packed t 0 dc ip)
           then \<lparr>current_index = 1, next_uid = Some (packed t 1 dc ip), reads = 2,
                 events = [Tried t 0 (packed t 0 dc ip), Tried t 1 (packed t 1 dc ip)]\<rparr>
           else \<lparr>current_index = 0, next_uid = Some (packed t 0 dc ip), reads = 1,
                 events = [Tried t 0 (packed t 0 dc ip)]\<rparr>)"
  using uid_loop_two_passes [of h dc ip lu] nz0 nz1 by (simp add: clock)

lemma generate_standing_clock:
  assumes clock: "\<And>k. time_ms h k = t"
    and nz0: "packed t 0 dc ip \<noteq> 0" and nz1: "packed t 1 dc ip \<noteq> 0"
    and res: "resolve_ipa h = Inr ipa" "ip_component_of ipa = Inr ip"
  shows "generate_jacs_uid h dc lu =
     Some (if lu = Some (packed t 0 dc ip)
           then \<lparr>ending = Returned (packed t 1 dc ip), printed = [],
                 did = [Tried t 0 (packed t 0 dc ip), Tried t 1 (packed t 1 dc ip)]\<rparr>
           else \<lparr>ending = Returned (packed t 0 dc ip), printed = [],
                 did = [Tried t 0 (packed t 0 dc ip)]\<rparr>)"
  using nz0 nz1
  by (simp add: generate_jacs_uid_def res uid_loop_standing_clock[OF clock nz0 nz1]
      uid_finish_def)

lemma burst_standing_clock:
  assumes clock: "\<And>k. time_ms h k = t"
    and nz0: "packed t 0 dc ip \<noteq> 0" and nz1: "packed t 1 dc ip \<noteq> 0"
    and res: "resolve_ipa h = Inr ipa" "ip_component_of ipa = Inr ip"
  shows "\<exists>r. burst h dc n = Some r \<and> ending r = Returned (packed t (int (n mod 2)) dc ip)
            \<and> Slept_ms 500 \<notin> set (did r)"
proof (induction n)
  case 0
  show ?case
    by (simp add: generate_standing_clock[OF assms])
next
  case (Suc n)
  then obtain r where r: "burst h dc n = Some r"
    "ending r = Returned (packed t (int (n mod 2)) dc ip)"
    by blast
  have c01: "packed t 1 dc ip \<noteq> packed t 0 dc ip" by (simp add: packed_def)
  have step: "burst h dc (Suc n) =
      generate_jacs_uid h dc (Some (packed t (int (n mod 2)) dc ip))"
    using r by simp
  show ?case
  proof (cases "n mod 2 = 0")
    case True
    then have "Suc n mod 2 = 1" by presburger
    with True show ?thesis
      by (simp add: step generate_standing_clock[OF assms] del: burst.simps)
  next
    case False
    then have n1: "n mod 2 = 1" by presburger
    then have "Suc n mod 2 = 0" by presburger
    with n1 c01 show ?thesis
      by (simp add: step generate_standing_clock[OF assms] del: burst.simps)
  qed
qed

text \<open>
  C3, as the code has it. On a clock that stands at one millisecond after the epoch
  offset, with a deployment context of 4 bits, the calls of a burst all return, and the
  sequence index of the \<open>n\<close>-th value (counting from 0) is \<open>n mod 2\<close>: the index restarts
  at 0 in every call, so it goes 0, 1, 0, 1, ... at one and the same time component. No
  call of the burst sleeps.
\<close>

theorem burst_index_alternates:
  assumes "\<forall>k. time_ms h k = t" and "921700000000 < t"
    and "resolve_ipa h = Inr ipa" and "ip_component_of ipa = Inr ip_component"
    and "0 \<le> deployment_context" and "deployment_context < 16"
  shows "\<exists>r v. burst h deployment_context n = Some r \<and> ending r = Returned v \<and>
           index_field v = int (n mod 2) \<and> time_field v = t - 921700000000 \<and>
           context_field v = deployment_context \<and> host_field v = ip_component \<and>
           Slept_ms 500 \<notin> set (did r)"
proof -
  from ip_component_range[OF assms(4)] have ip: "0 \<le> ip_component" "ip_component < 256"
    by simp_all
  have clock: "\<And>k. time_ms h k = t" using assms(1) by simp
  have pos: "0 < packed t i deployment_context ip_component" if "0 \<le> i" for i
  proof -
    have "0 < (t - 921700000000) * 4194304" using assms(2) by simp
    moreover have "0 \<le> i * 4096 + deployment_context * 256 + ip_component"
      using that assms(5) ip by simp
    ultimately show ?thesis by (simp add: packed_def)
  qed
  have nz0: "packed t 0 deployment_context ip_component \<noteq> 0" using pos[of 0] by simp
  have nz1: "packed t 1 deployment_context ip_component \<noteq> 0" using pos[of 1] by simp
  from burst_standing_clock[OF clock nz0 nz1 assms(3,4), of n]
  obtain r where r: "burst h deployment_context n = Some r"
    "ending r = Returned (packed t (int (n mod 2)) deployment_context ip_component)"
    "Slept_ms 500 \<notin> set (did r)"
    by blast
  have i: "0 \<le> int (n mod 2)" "int (n mod 2) < 1024" by simp_all
  note f = packed_fields[OF ip assms(5,6) i, of t]
  from r f show ?thesis by simp
qed

theorem burst_index_alternates_witness:
  "\<exists>r v. burst still_host 2 5 = Some r \<and> ending r = Returned v \<and>
     index_field v = 1 \<and> time_field v = 778300000000 \<and>
     context_field v = 2 \<and> host_field v = 7 \<and> Slept_ms 500 \<notin> set (did r)"
proof -
  have clock: "\<forall>k. time_ms still_host k = 1700000000000"
    by (simp add: still_host_def)
  have after: "(921700000000 :: int) < 1700000000000"
    by simp
  have lo: "(0 :: int) \<le> 2" and hi: "(2 :: int) < 16"
    by simp_all
  from burst_index_alternates [OF clock after still_host_resolves lo hi, of 5]
  show ?thesis by simp
qed

text \<open>
  C3 as stated fails at the third call of a burst: on \<open>still_host\<close> the indices of the
  first three values are 0, 1, 0, so the third is not above the second, long before
  1023; the third value is the first one again.
\<close>

theorem burst_index_counterexample:
  "returned_value (burst still_host 2 0) = Some 3264426803200000519
   \<and> returned_value (burst still_host 2 1) = Some 3264426803200004615
   \<and> returned_value (burst still_host 2 2) = Some 3264426803200000519
   \<and> index_field 3264426803200004615 = 1
   \<and> index_field 3264426803200000519 = 0
   \<and> \<not> index_field 3264426803200004615 < index_field 3264426803200000519"
  by code_simp

subsection \<open>Decoding a returned identifier\<close>

lemma returned_is_packed:
  assumes "generate_jacs_uid h dc lu = Some r" and "ending r = Returned v"
    and "resolve_ipa h = Inr ipa" and "ip_component_of ipa = Inr ip"
  shows "\<exists>now i. v = packed now i dc ip \<and> 0 \<le> i \<and> i \<le> 1023"
proof -
  from generate_returned[OF assms(1,2)] assms(3,4)
  obtain st where nx: "next_uid st = Some v" and inv: "uid_inv h dc ip lu st"
    by auto
  from inv nx obtain now i where "Tried now i v \<in> set (events st)"
    unfolding uid_inv_def by blast
  with inv have "v = packed now i dc ip \<and> 0 \<le> i \<and> i \<le> 1023"
    unfolding uid_inv_def by blast
  then show ?thesis by blast
qed



subsection \<open>The end of the loop\<close>




subsection \<open>One pass of the loop\<close>

text \<open>
  C8. One pass of the loop body from any state. On a collision with \<open>last_uid\<close> the
  candidate is dropped and the index goes up by one; while the new index is at most 1023
  nothing is slept and the loop goes on at once. When the index is above 1023 and no
  usable candidate is left (after a collision at 1023, or with a candidate of 0), the
  pass sleeps 500 ms, sets the index to 0, and the loop goes on.
\<close>

theorem collision_retries_and_sweep_sleeps:
  "let now = time_ms h (reads st);
       cand = push_bit 22 (now - 921700000000) + push_bit 12 (current_index st)
                + push_bit 8 deployment_context + ip_component;
       collision = (truthy last_uid \<and> last_uid = Some cand);
       st' = uid_body h deployment_context ip_component last_uid st
   in (collision \<and> current_index st + 1 \<le> 1023 \<longrightarrow>
         next_uid st' = None \<and>
         current_index st' = current_index st + 1 \<and>
         events st' = events st @ [Tried now (current_index st) cand] \<and>
         uid_continue st')
    \<and> (collision \<and> current_index st + 1 > 1023 \<longrightarrow>
         next_uid st' = None \<and>
         events st' = events st @ [Tried now (current_index st) cand, Slept_ms 500] \<and>
         current_index st' = 0 \<and>
         uid_continue st')
    \<and> (\<not> collision \<and> cand = 0 \<and> current_index st > 1023 \<longrightarrow>
         next_uid st' = Some 0 \<and>
         events st' = events st @ [Tried now (current_index st) cand, Slept_ms 500] \<and>
         current_index st' = 0 \<and>
         uid_continue st')"
  by (auto simp add: uid_body_def Let_def uid_continue_def max_tries_def current_time_offset_def)

theorem collision_retries_and_sweep_sleeps_witness:
  "uid_body still_host 2 7 (Some 3264426803200000519) uid_init =
     \<lparr>current_index = 1, next_uid = None, reads = 1,
      events = [Tried 1700000000000 0 3264426803200000519]\<rparr>
   \<and> uid_body still_host 2 7 (Some 3264426803204190727)
       \<lparr>current_index = 1023, next_uid = None, reads = 0, events = []\<rparr> =
     \<lparr>current_index = 0, next_uid = None, reads = 1,
      events = [Tried 1700000000000 1023 3264426803204190727, Slept_ms 500]\<rparr>
   \<and> uid_body epoch_host 0 0 None
       \<lparr>current_index = 1024, next_uid = None, reads = 0, events = []\<rparr> =
     \<lparr>current_index = 0, next_uid = Some 0, reads = 1,
      events = [Tried 921699999999 1024 0, Slept_ms 500]\<rparr>"
proof -
  let ?a = "uid_init"
  let ?b = "\<lparr>current_index = 1023, next_uid = None, reads = 0, events = []\<rparr>"
  let ?c = "\<lparr>current_index = 1024, next_uid = None, reads = 0, events = []\<rparr>"
  let ?a' = "uid_body still_host 2 7 (Some 3264426803200000519) ?a"
  let ?b' = "uid_body still_host 2 7 (Some 3264426803204190727) ?b"
  let ?c' = "uid_body epoch_host 0 0 None ?c"
  from collision_retries_and_sweep_sleeps [of still_host ?a 2 7 "Some 3264426803200000519"]
  have a: "next_uid ?a' = None \<and> current_index ?a' = 1 \<and>
           events ?a' = [Tried 1700000000000 0 3264426803200000519]"
    by (simp add: Let_def still_host_def uid_init_def push_bit_eq_mult)
  from collision_retries_and_sweep_sleeps [of still_host ?b 2 7 "Some 3264426803204190727"]
  have b: "next_uid ?b' = None \<and> current_index ?b' = 0 \<and>
           events ?b' = [Tried 1700000000000 1023 3264426803204190727, Slept_ms 500]"
    by (simp add: Let_def still_host_def push_bit_eq_mult)
  from collision_retries_and_sweep_sleeps [of epoch_host ?c 0 0 None]
  have c: "next_uid ?c' = Some 0 \<and> current_index ?c' = 0 \<and>
           events ?c' = [Tried 921699999999 1024 0, Slept_ms 500]"
    by (simp add: Let_def epoch_host_def push_bit_eq_mult)
  have ra: "reads ?a' = 1" by (simp add: uid_body_def Let_def uid_init_def)
  have rb: "reads ?b' = 1" by (simp add: uid_body_def Let_def)
  have rc: "reads ?c' = 1" by (simp add: uid_body_def Let_def)
  have eq: "s = \<lparr>current_index = current_index s, next_uid = next_uid s, reads = reads s,
                  events = events s\<rparr>" for s :: uid_state
    by simp
  show ?thesis
    using a b c ra rb rc eq[of ?a'] eq[of ?b'] eq[of ?c'] by simp
qed

subsection \<open>The loopback fallback\<close>

lemma packed_mod_256:
  assumes "0 \<le> ip" "ip < 256"
  shows "packed now i dc ip mod 256 = ip"
proof -
  have "packed now i dc ip = ((now - 921700000000) * 16384 + i * 16 + dc) * 256 + ip"
    by (simp add: packed_def algebra_simps)
  then show ?thesis using assms by (simp only: pack_div_mod(2))
qed

text \<open>
  C9. When the \<open>try\<close> block fails (in \<open>gethostname\<close> or in resolving the name), the
  address is that of \<open>gethostbyname('localhost')\<close> and the exception of the block
  plays no further part: if the loopback name resolves to an address with an integer
  last field, every call that comes back returns a value, and its host component is
  taken from the loopback address.
\<close>

theorem loopback_fallback:
  assumes "resolve_local h = (Inl e, k)"
  shows "resolve_ipa h = gethostbyname h k ''localhost'' \<and>
         (\<forall>ipa ip_component r.
            gethostbyname h k ''localhost'' = Inr ipa \<longrightarrow>
            ip_component_of ipa = Inr ip_component \<longrightarrow>
            generate_jacs_uid h deployment_context last_uid = Some r \<longrightarrow>
            (\<exists>v. ending r = Returned v \<and> host_field v = ip_component))"
proof (intro conjI allI impI)
  show res: "resolve_ipa h = gethostbyname h k ''localhost''"
    using assms by (simp add: resolve_ipa_def)
  fix ipa ip_component r
  assume lb: "gethostbyname h k ''localhost'' = Inr ipa"
    and ipc: "ip_component_of ipa = Inr ip_component"
    and run: "generate_jacs_uid h deployment_context last_uid = Some r"
  from res lb have ra: "resolve_ipa h = Inr ipa" by simp
  from generate_cases[OF run] ra ipc
  obtain st where lp: "uid_loop h deployment_context ip_component last_uid uid_init = Some st"
    and r: "r = uid_finish st"
    by auto
  from uid_loop_exit[OF lp] have tr: "truthy (next_uid st)" by simp
  then obtain v where v: "next_uid st = Some v" "v \<noteq> 0"
    by (cases "next_uid st") auto
  with r have e: "ending r = Returned v" by (simp add: uid_finish_def)
  from returned_is_packed[OF run e ra ipc]
  obtain now i where "v = packed now i deployment_context ip_component" by blast
  with ip_component_range[OF ipc] have "host_field v = ip_component"
    by (simp add: host_field_def and_255 packed_mod_256)
  with e show "\<exists>v. ending r = Returned v \<and> host_field v = ip_component" by blast
qed

theorem loopback_fallback_witness:
  "resolve_local offline_host = (Inl (OSError ''Name or service not known''), 1)
   \<and> resolve_ipa offline_host = Inr ''127.0.0.1''
   \<and> generate_jacs_uid offline_host 2 None =
       Some \<lparr>ending = Returned 3264426803200000513, printed = [],
             did = [Tried 1700000000000 0 3264426803200000513]\<rparr>
   \<and> host_field 3264426803200000513 = 1"
proof -
  note inst = loopback_fallback [OF offline_host_facts(1), of 2 None]
  from inst [THEN conjunct1] offline_host_facts(2)
  have r: "resolve_ipa offline_host = Inr ''127.0.0.1''"
    by simp
  from inst [THEN conjunct2, rule_format, OF offline_host_facts(2,3,4)]
  have "host_field 3264426803200000513 = 1"
    by simp
  with r offline_host_facts show ?thesis by simp
qed

section \<open>The listing generator\<close>

subsection \<open>Steps of the frame and of the consumer\<close>

lemma requests_of_append: "requests_of (xs @ ys) = requests_of xs @ requests_of ys"
  by (induction xs rule: requests_of.induct) simp_all

lemma requests_of_yields: "requests_of (map Yield es) = []"
  by (induction es) simp_all

lemma yields_of_append: "yields_of (xs @ ys) = yields_of xs @ yields_of ys"
  by (induction xs rule: yields_of.induct) simp_all

lemma resume_top:
  assumes "build_list_kwargs base_kwargs token = Inr kw"
    and "s3c (length (requests_of hist)) kw = Inr response"
  shows "resume s3c base_kwargs hist (At_top token) =
           resume s3c base_kwargs (hist @ [Request kw]) (In_page (entries_of response) response)"
  using assms by (subst resume.simps) (simp add: entries_of_def)

lemma resume_top_raises:
  assumes "build_list_kwargs base_kwargs token = Inr kw"
    and "s3c (length (requests_of hist)) kw = Inl x"
  shows "resume s3c base_kwargs hist (At_top token) =
           Some (Error x, \<lparr>frame = Closed, base = base_kwargs,
                           history = hist @ [Request kw, Raise x]\<rparr>)"
  using assms by (subst resume.simps) simp

lemma resume_item:
  "resume s3c base_kwargs hist (In_page (e # rest) response) =
     Some (Item e, \<lparr>frame = Running (In_page rest response), base = base_kwargs,
                    history = hist @ [Yield e]\<rparr>)"
  by (subst resume.simps) simp

lemma resume_last_page:
  assumes "\<not> truthy_bool (IsTruncated response)"
  shows "resume s3c base_kwargs hist (In_page [] response) =
     Some (StopIteration, \<lparr>frame = Closed, base = base_kwargs, history = hist\<rparr>)"
  using assms by (subst resume.simps) simp

lemma resume_next_page:
  assumes "truthy_bool (IsTruncated response)"
  shows "resume s3c base_kwargs hist (In_page [] response) =
     resume s3c base_kwargs hist (At_top (NextContinuationToken response))"
  using assms by (subst resume.simps) simp

lemma drain_item:
  assumes "next_item s3c g = Some (Item e, g')"
  shows "drain s3c g got = drain s3c g' (got @ [e])"
  using assms by (subst drain.simps) simp

lemma drain_stop:
  assumes "next_item s3c g = Some (StopIteration, g')"
  shows "drain s3c g got = Some (got, None, g')"
  using assms by (subst drain.simps) simp

lemma drain_error:
  assumes "next_item s3c g = Some (Error x, g')"
  shows "drain s3c g got = Some (got, Some x, g')"
  using assms by (subst drain.simps) simp

lemma drain_page:
  "drain s3c \<lparr>frame = Running (In_page es response), base = b, history = hist\<rparr> got =
   drain s3c \<lparr>frame = Running (In_page [] response), base = b,
               history = hist @ map Yield es\<rparr> (got @ es)"
proof (induction es arbitrary: hist got)
  case Nil
  show ?case by simp
next
  case (Cons e es)
  have "next_item s3c \<lparr>frame = Running (In_page (e # es) response), base = b, history = hist\<rparr> =
        Some (Item e, \<lparr>frame = Running (In_page es response), base = b,
                       history = hist @ [Yield e]\<rparr>)"
    by (simp add: next_item_def resume_item)
  from drain_item[OF this]
  have "drain s3c \<lparr>frame = Running (In_page (e # es) response), base = b, history = hist\<rparr> got =
        drain s3c \<lparr>frame = Running (In_page es response), base = b,
                    history = hist @ [Yield e]\<rparr> (got @ [e])" .
  also have "\<dots> = drain s3c \<lparr>frame = Running (In_page [] response), base = b,
                    history = (hist @ [Yield e]) @ map Yield es\<rparr> ((got @ [e]) @ es)"
    by (rule Cons.IH)
  finally show ?case by simp
qed

text \<open>A pull at the top of the loop that gets a page: the rest of the drain.\<close>

lemma drain_fetch:
  assumes "build_list_kwargs b token = Inr kw"
    and "s3c (length (requests_of hist)) kw = Inr response"
  shows "drain s3c \<lparr>frame = Running (At_top token), base = b, history = hist\<rparr> got =
         drain s3c \<lparr>frame = Running (In_page (entries_of response) response), base = b,
                     history = hist @ [Request kw]\<rparr> got"
proof -
  have "next_item s3c \<lparr>frame = Running (At_top token), base = b, history = hist\<rparr> =
        next_item s3c \<lparr>frame = Running (In_page (entries_of response) response), base = b,
                     history = hist @ [Request kw]\<rparr>"
    by (simp add: next_item_def resume_top[of b token kw s3c hist response, OF assms])
  then show ?thesis
    by (subst drain.simps, subst (2) drain.simps) simp
qed

lemma drain_fetch_raises:
  assumes "build_list_kwargs b token = Inr kw"
    and "s3c (length (requests_of hist)) kw = Inl x"
  shows "drain s3c \<lparr>frame = Running (At_top token), base = b, history = hist\<rparr> got =
         Some (got, Some x, \<lparr>frame = Closed, base = b, history = hist @ [Request kw, Raise x]\<rparr>)"
  by (rule drain_error) (simp add: next_item_def resume_top_raises[of b token kw s3c hist x, OF assms])

lemma drain_page_end_more:
  assumes "truthy_bool (IsTruncated response)"
  shows "drain s3c \<lparr>frame = Running (In_page [] response), base = b, history = hist\<rparr> got =
         drain s3c \<lparr>frame = Running (At_top (NextContinuationToken response)), base = b,
                     history = hist\<rparr> got"
proof -
  have "next_item s3c \<lparr>frame = Running (In_page [] response), base = b, history = hist\<rparr> =
        next_item s3c \<lparr>frame = Running (At_top (NextContinuationToken response)), base = b,
                     history = hist\<rparr>"
    by (simp add: next_item_def resume_next_page[OF assms])
  then show ?thesis
    by (subst drain.simps, subst (2) drain.simps) simp
qed

lemma drain_page_end_stop:
  assumes "\<not> truthy_bool (IsTruncated response)"
  shows "drain s3c \<lparr>frame = Running (In_page [] response), base = b, history = hist\<rparr> got =
         Some (got, None, \<lparr>frame = Closed, base = b, history = hist\<rparr>)"
  by (rule drain_stop) (simp add: next_item_def resume_last_page[OF assms])

lemma build_first:
  "''MaxKeys'' \<notin> fst ` set base_kwargs \<Longrightarrow>
     build_list_kwargs base_kwargs None = Inr (first_request base_kwargs)"
  by (simp add: build_list_kwargs_def first_request_def)

lemma build_with_token:
  "''MaxKeys'' \<notin> fst ` set base_kwargs \<Longrightarrow> token \<noteq> [] \<Longrightarrow>
     build_list_kwargs base_kwargs (Some token) =
       Inr (AList.update ''ContinuationToken'' (PStr token) (first_request base_kwargs))"
  by (simp add: build_list_kwargs_def first_request_def)

lemma flylight_requests:
  "''MaxKeys'' \<notin> fst ` set flylight_kwargs"
  "build_list_kwargs flylight_kwargs None =
     Inr [(''MaxKeys'', PInt 1000), (''Bucket'', PStr ''janelia-flylight-color-depth''),
          (''Prefix'', PStr ''JRC2018_Unisex'')]"
  "build_list_kwargs flylight_kwargs (Some ''X'') =
     Inr [(''MaxKeys'', PInt 1000), (''Bucket'', PStr ''janelia-flylight-color-depth''),
          (''Prefix'', PStr ''JRC2018_Unisex''), (''ContinuationToken'', PStr ''X'')]"
  "AList.update ''ContinuationToken'' (PStr ''X'') ((''MaxKeys'', PInt 1000) # flylight_kwargs) =
     [(''MaxKeys'', PInt 1000), (''Bucket'', PStr ''janelia-flylight-color-depth''),
          (''Prefix'', PStr ''JRC2018_Unisex''), (''ContinuationToken'', PStr ''X'')]"
  by (simp_all add: flylight_kwargs_def build_list_kwargs_def)

subsection \<open>Two pages\<close>

text \<open>
  C5. A client whose first response is \<open>[a, b]\<close>, truncated, with a token, and whose
  second response is \<open>[c]\<close>, not truncated: the consumer receives \<open>a, b, c\<close> in that
  order and the generator ends without an exception; it has issued exactly two requests,
  the second with the token as \<open>ContinuationToken\<close>, and in its history both entries of
  the first page come before the second request. After the pulls of \<open>a\<close> and \<open>b\<close>
  only the first request has been issued.
\<close>

theorem two_pages_listing:
  assumes "''MaxKeys'' \<notin> fst ` set base_kwargs" and "token \<noteq> []"
    and "s3c 0 ((''MaxKeys'', PInt 1000) # base_kwargs) =
           Inr \<lparr>Contents = Some [a, b], IsTruncated = Some True,
                NextContinuationToken = Some token\<rparr>"
    and "s3c 1 (AList.update ''ContinuationToken'' (PStr token)
                 ((''MaxKeys'', PInt 1000) # base_kwargs)) =
           Inr \<lparr>Contents = Some [c], IsTruncated = Some False,
                NextContinuationToken = None\<rparr>"
  shows "drain s3c (get_all_s3_objects base_kwargs) [] =
           Some ([a, b, c], None,
             \<lparr>frame = Closed, base = base_kwargs,
              history =
                [Request ((''MaxKeys'', PInt 1000) # base_kwargs), Yield a, Yield b,
                 Request (AList.update ''ContinuationToken'' (PStr token)
                            ((''MaxKeys'', PInt 1000) # base_kwargs)),
                 Yield c]\<rparr>)
       \<and> (\<exists>g1 g2. next_item s3c (get_all_s3_objects base_kwargs) = Some (Item a, g1) \<and>
             next_item s3c g1 = Some (Item b, g2) \<and>
             requests_of (history g2) = [(''MaxKeys'', PInt 1000) # base_kwargs])"
proof
  let ?req0 = "first_request base_kwargs"
  let ?req1 = "AList.update ''ContinuationToken'' (PStr token) ?req0"
  let ?p1 = "\<lparr>Contents = Some [a, b], IsTruncated = Some True,
              NextContinuationToken = Some token\<rparr>"
  let ?p2 = "\<lparr>Contents = Some [c], IsTruncated = Some False,
              NextContinuationToken = None :: string option\<rparr>"
  have c0: "s3c (length (requests_of ([] :: 'a action list))) ?req0 = Inr ?p1"
    using assms(3) by (simp add: first_request_def)
  have c1: "s3c (length (requests_of ([Request ?req0] @ map Yield [a, b]))) ?req1 = Inr ?p2"
    using assms(4) by (simp add: first_request_def)
  have b1: "build_list_kwargs base_kwargs (NextContinuationToken ?p1) = Inr ?req1"
    using build_with_token[OF assms(1,2)] by simp
  have "drain s3c (get_all_s3_objects base_kwargs) [] =
        drain s3c \<lparr>frame = Running (In_page [a, b] ?p1), base = base_kwargs,
                    history = [] @ [Request ?req0]\<rparr> []"
    unfolding get_all_s3_objects_def
    using drain_fetch[of base_kwargs None ?req0 s3c "[]" ?p1 "[]",
        OF build_first[OF assms(1)] c0]
    by (simp add: entries_of_def)
  also have "\<dots> = drain s3c \<lparr>frame = Running (In_page [] ?p1), base = base_kwargs,
                    history = [Request ?req0] @ map Yield [a, b]\<rparr> ([] @ [a, b])"
    using drain_page[of s3c "[a, b]" ?p1 base_kwargs "[Request ?req0]" "[]"] by simp
  also have "\<dots> = drain s3c \<lparr>frame = Running (At_top (NextContinuationToken ?p1)),
                    base = base_kwargs,
                    history = [Request ?req0] @ map Yield [a, b]\<rparr> ([] @ [a, b])"
    by (rule drain_page_end_more) simp
  also have "\<dots> = drain s3c \<lparr>frame = Running (In_page [c] ?p2), base = base_kwargs,
                    history = ([Request ?req0] @ map Yield [a, b]) @ [Request ?req1]\<rparr>
                    ([] @ [a, b])"
    using drain_fetch[of base_kwargs "NextContinuationToken ?p1" ?req1 s3c
        "[Request ?req0] @ map Yield [a, b]" ?p2 "[] @ [a, b]", OF b1 c1]
    by (simp add: entries_of_def)
  also have "\<dots> = drain s3c \<lparr>frame = Running (In_page [] ?p2), base = base_kwargs,
                    history = (([Request ?req0] @ map Yield [a, b]) @ [Request ?req1])
                                @ map Yield [c]\<rparr>
                    (([] @ [a, b]) @ [c])"
    by (rule drain_page)
  also have "\<dots> = Some ((([] @ [a, b]) @ [c]), None,
                 \<lparr>frame = Closed, base = base_kwargs,
                  history = (([Request ?req0] @ map Yield [a, b]) @ [Request ?req1])
                                @ map Yield [c]\<rparr>)"
    by (rule drain_page_end_stop) simp
  finally show "drain s3c (get_all_s3_objects base_kwargs) [] =
           Some ([a, b, c], None,
             \<lparr>frame = Closed, base = base_kwargs,
              history =
                [Request ((''MaxKeys'', PInt 1000) # base_kwargs), Yield a, Yield b,
                 Request (AList.update ''ContinuationToken'' (PStr token)
                            ((''MaxKeys'', PInt 1000) # base_kwargs)),
                 Yield c]\<rparr>)"
    by (simp add: first_request_def)
  have n1: "next_item s3c (get_all_s3_objects base_kwargs) =
              Some (Item a, \<lparr>frame = Running (In_page [b] ?p1), base = base_kwargs,
                             history = [Request ?req0, Yield a]\<rparr>)"
    unfolding get_all_s3_objects_def next_item_def
    using resume_top[of base_kwargs None ?req0 s3c "[]" ?p1, OF build_first[OF assms(1)] c0]
    by (simp add: entries_of_def resume_item)
  have n2: "next_item s3c \<lparr>frame = Running (In_page [b] ?p1), base = base_kwargs,
                             history = [Request ?req0, Yield a]\<rparr> =
              Some (Item b, \<lparr>frame = Running (In_page [] ?p1), base = base_kwargs,
                             history = [Request ?req0, Yield a, Yield b]\<rparr>)"
    by (simp add: next_item_def resume_item)
  from n1 n2 show "\<exists>g1 g2. next_item s3c (get_all_s3_objects base_kwargs) = Some (Item a, g1) \<and>
             next_item s3c g1 = Some (Item b, g2) \<and>
             requests_of (history g2) = [(''MaxKeys'', PInt 1000) # base_kwargs]"
    by (simp add: first_request_def)
qed

theorem two_pages_listing_witness:
  "drain two_page_client (get_all_s3_objects flylight_kwargs) [] =
     Some ([''a'', ''b'', ''c''], None,
       \<lparr>frame = Closed, base = flylight_kwargs,
        history =
          [Request [(''MaxKeys'', PInt 1000),
                    (''Bucket'', PStr ''janelia-flylight-color-depth''),
                    (''Prefix'', PStr ''JRC2018_Unisex'')],
           Yield ''a'', Yield ''b'',
           Request [(''MaxKeys'', PInt 1000),
                    (''Bucket'', PStr ''janelia-flylight-color-depth''),
                    (''Prefix'', PStr ''JRC2018_Unisex''),
                    (''ContinuationToken'', PStr ''X'')],
           Yield ''c'']\<rparr>)"
proof -
  have tok: "''X'' \<noteq> []" by simp
  have p1: "two_page_client 0 ((''MaxKeys'', PInt 1000) # flylight_kwargs) =
      Inr \<lparr>Contents = Some [''a'', ''b''], IsTruncated = Some True,
           NextContinuationToken = Some ''X''\<rparr>"
    by (simp add: two_page_client_def)
  have p2: "two_page_client 1 (AList.update ''ContinuationToken'' (PStr ''X'')
               ((''MaxKeys'', PInt 1000) # flylight_kwargs)) =
      Inr \<lparr>Contents = Some [''c''], IsTruncated = Some False,
           NextContinuationToken = None\<rparr>"
    by (simp add: two_page_client_def)
  from two_pages_listing [OF flylight_requests(1) tok p1 p2, THEN conjunct1]
  show ?thesis
    unfolding flylight_requests(4) by (simp add: flylight_kwargs_def)
qed

subsection \<open>An error on the second request\<close>

text \<open>
  C6. When the second call of the client raises, the consumer has received every entry
  of the first page and then gets the exception from the pull that made the second
  request. The generator is closed by it: a later pull is \<open>StopIteration\<close> and changes
  nothing, so there are two requests in all and no entries besides those of the first
  page.
\<close>

theorem transport_error_on_second_request:
  assumes "build_list_kwargs base_kwargs None = Inr req1"
    and "build_list_kwargs base_kwargs next_token = Inr req2"
    and "s3c 0 req1 =
           Inr \<lparr>Contents = Some es, IsTruncated = Some True,
                NextContinuationToken = next_token\<rparr>"
    and "s3c 1 req2 = Inl x"
  shows "drain s3c (get_all_s3_objects base_kwargs) [] =
           Some (es, Some x,
             \<lparr>frame = Closed, base = base_kwargs,
              history = Request req1 # map Yield es @ [Request req2, Raise x]\<rparr>)
       \<and> next_item s3c
             \<lparr>frame = Closed, base = base_kwargs,
              history = Request req1 # map Yield es @ [Request req2, Raise x]\<rparr> =
           Some (StopIteration,
             \<lparr>frame = Closed, base = base_kwargs,
              history = Request req1 # map Yield es @ [Request req2, Raise x]\<rparr>)
       \<and> requests_of (Request req1 # map Yield es @ [Request req2, Raise x]) = [req1, req2]
       \<and> yields_of (Request req1 # map Yield es @ [Request req2, Raise x]) = es"
proof (intro conjI)
  let ?p1 = "\<lparr>Contents = Some es, IsTruncated = Some True,
              NextContinuationToken = next_token\<rparr>"
  have c0: "s3c (length (requests_of ([] :: 'a action list))) req1 = Inr ?p1"
    using assms(3) by simp
  have c1: "s3c (length (requests_of ([Request req1] @ map Yield es))) req2 = Inl x"
    using assms(4) by (simp add: requests_of_append requests_of_yields)
  have b1: "build_list_kwargs base_kwargs (NextContinuationToken ?p1) = Inr req2"
    using assms(2) by simp
  have "drain s3c (get_all_s3_objects base_kwargs) [] =
        drain s3c \<lparr>frame = Running (In_page es ?p1), base = base_kwargs,
                    history = [] @ [Request req1]\<rparr> []"
    unfolding get_all_s3_objects_def
    using drain_fetch[of base_kwargs None req1 s3c "[]" ?p1 "[]", OF assms(1) c0]
    by (simp add: entries_of_def)
  also have "\<dots> = drain s3c \<lparr>frame = Running (In_page [] ?p1), base = base_kwargs,
                    history = [Request req1] @ map Yield es\<rparr> ([] @ es)"
    using drain_page[of s3c es ?p1 base_kwargs "[Request req1]" "[]"] by simp
  also have "\<dots> = drain s3c \<lparr>frame = Running (At_top (NextContinuationToken ?p1)),
                    base = base_kwargs,
                    history = [Request req1] @ map Yield es\<rparr> ([] @ es)"
    by (rule drain_page_end_more) simp
  also have "\<dots> = Some ([] @ es, Some x,
                 \<lparr>frame = Closed, base = base_kwargs,
                  history = ([Request req1] @ map Yield es) @ [Request req2, Raise x]\<rparr>)"
    using b1 c1 by (rule drain_fetch_raises)
  finally show "drain s3c (get_all_s3_objects base_kwargs) [] =
           Some (es, Some x,
             \<lparr>frame = Closed, base = base_kwargs,
              history = Request req1 # map Yield es @ [Request req2, Raise x]\<rparr>)"
    by simp
  show "next_item s3c
             \<lparr>frame = Closed, base = base_kwargs,
              history = Request req1 # map Yield es @ [Request req2, Raise x]\<rparr> =
           Some (StopIteration,
             \<lparr>frame = Closed, base = base_kwargs,
              history = Request req1 # map Yield es @ [Request req2, Raise x]\<rparr>)"
    by (simp add: next_item_def)
  show "requests_of (Request req1 # map Yield es @ [Request req2, Raise x]) = [req1, req2]"
    by (simp add: requests_of_append requests_of_yields)
  have "yields_of (map Yield es) = es" by (induction es) simp_all
  then show "yields_of (Request req1 # map Yield es @ [Request req2, Raise x]) = es"
    by (simp add: yields_of_append)
qed

theorem transport_error_on_second_request_witness:
  "drain failing_client (get_all_s3_objects flylight_kwargs) [] =
     Some ([''a'', ''b''], Some (OSError ''connection reset''),
       \<lparr>frame = Closed, base = flylight_kwargs,
        history =
          [Request [(''MaxKeys'', PInt 1000),
                    (''Bucket'', PStr ''janelia-flylight-color-depth''),
                    (''Prefix'', PStr ''JRC2018_Unisex'')],
           Yield ''a'', Yield ''b'',
           Request [(''MaxKeys'', PInt 1000),
                    (''Bucket'', PStr ''janelia-flylight-color-depth''),
                    (''Prefix'', PStr ''JRC2018_Unisex''),
                    (''ContinuationToken'', PStr ''X'')],
           Raise (OSError ''connection reset'')]\<rparr>)"
proof -
  have p1: "failing_client 0 [(''MaxKeys'', PInt 1000),
                    (''Bucket'', PStr ''janelia-flylight-color-depth''),
                    (''Prefix'', PStr ''JRC2018_Unisex'')] =
      Inr \<lparr>Contents = Some [''a'', ''b''], IsTruncated = Some True,
           NextContinuationToken = Some ''X''\<rparr>"
    by (simp add: failing_client_def)
  have p2: "failing_client 1 [(''MaxKeys'', PInt 1000),
                    (''Bucket'', PStr ''janelia-flylight-color-depth''),
                    (''Prefix'', PStr ''JRC2018_Unisex''),
                    (''ContinuationToken'', PStr ''X'')] =
      Inl (OSError ''connection reset'')"
    by (simp add: failing_client_def)
  from transport_error_on_second_request [OF flylight_requests(2,3) p1 p2, THEN conjunct1]
  show ?thesis by simp
qed

subsection \<open>A truncated page without a token\<close>





end
